theory Spec2Isabelle
  imports Main "HOL-Library.Multiset"
begin

section \<open>Entity store\<close>

text \<open>
  The entity-component store of \<^verbatim>\<open>scripts/engine/existence.py\<close> (snecs): an entity is an
  identifier, and it holds at most one component of each kind. A component object is
  owned by its entity, so a mutation of the object is an update of the store.
\<close>

type_synonym entity_id = nat

datatype py_error = AttributeError | KeyError | IndexError

datatype component_kind =
  Position | Resources | Tracked | Behaviour | Identity | Knowledge | FOV | Sight
  | Physicality | IsActive | IsPlayer | IsGod

record position =
  pos_x :: int
  pos_y :: int
  coordinates :: "(int \<times> int) list"

record resources =
  health :: int
  stamina :: int

record tracked =
  time_spent :: int

record identity =
  name :: string
  description :: string

datatype behaviour = SkipTurn entity_id | ProjectileBehaviour entity_id

record components =
  c_position :: "position option"
  c_resources :: "resources option"
  c_tracked :: "tracked option"
  c_behaviour :: "behaviour option"
  c_identity :: "identity option"
  c_physicality :: "int option"
  c_sight :: "int option"
  c_fov :: "bool list list option"
  c_is_active :: "unit option"
  c_is_player :: "unit option"
  c_is_god :: "unit option"

datatype message_type = LOG

datatype event =
    MessageEvent message_type string
  | EndTurnEvent entity_id int
  | UseSkillEvent entity_id string "int \<times> int" "int \<times> int"
  | DieEvent entity_id

datatype log_entry =
    ComponentNotFound entity_id component_kind
  | LogDebug string
  | LogInfo string entity_id
  | LogWarning string entity_id
  | LogError string

text \<open>
  The process-wide state: the snecs world (\<open>ids\<close> is the order in which a query yields
  the entities, \<open>store\<close> their components), the entities scheduled for deletion, the
  global time, the turn queue (a dict, in insertion order) and the turn holder, the
  events handed to the publisher and the lines written to the log.
\<close>

record world =
  ids :: "entity_id list"
  store :: "entity_id \<rightharpoonup> components"
  scheduled :: "entity_id list"
  time :: int
  turn_queue :: "(entity_id \<times> int) list"
  turn_holder :: "entity_id option"
  published :: "event list"
  log :: "log_entry list"

definition no_components :: components where
  "no_components =
     \<lparr>c_position = None, c_resources = None, c_tracked = None, c_behaviour = None,
      c_identity = None, c_physicality = None, c_sight = None, c_fov = None,
      c_is_active = None, c_is_player = None, c_is_god = None\<rparr>"

definition publish :: "event \<Rightarrow> world \<Rightarrow> world" where
  "publish ev w = w\<lparr>published := published w @ [ev]\<rparr>"

definition write_log :: "log_entry \<Rightarrow> world \<Rightarrow> world" where
  "write_log l w = w\<lparr>log := log w @ [l]\<rparr>"

text \<open>In-place mutation of a component of an entity that exists.\<close>

definition update_components :: "entity_id \<Rightarrow> (components \<Rightarrow> components) \<Rightarrow> world \<Rightarrow> world" where
  "update_components entity f w =
     (case store w entity of
        None \<Rightarrow> w
      | Some cs \<Rightarrow> w\<lparr>store := (store w)(entity \<mapsto> f cs)\<rparr>)"

text \<open>
  \<^verbatim>\<open>get_components([C])\<close>: the entities that hold component \<open>C\<close>, in store order. A
  component class is passed as its kind and the field that holds it.
\<close>

definition get_components :: "world \<Rightarrow> (components \<Rightarrow> 'c option) \<Rightarrow> (entity_id \<times> 'c) list" where
  "get_components w sel =
     List.map_filter
       (\<lambda>e. case store w e of
              None \<Rightarrow> None
            | Some cs \<Rightarrow> (case sel cs of None \<Rightarrow> None | Some c \<Rightarrow> Some (e, c)))
       (ids w)"

text \<open>
  \<^verbatim>\<open>snecs.has_component\<close> looks the entity up in the world first: an identifier that is
  not in the world raises \<open>KeyError\<close>.
\<close>

definition has_component :: "world \<Rightarrow> entity_id \<Rightarrow> (components \<Rightarrow> 'c option) \<Rightarrow> py_error + bool" where
  "has_component w entity sel =
     (case store w entity of
        None \<Rightarrow> Inl KeyError
      | Some cs \<Rightarrow> Inr (sel cs \<noteq> None))"

definition get_player :: "world \<Rightarrow> entity_id option" where
  "get_player w =
     (case get_components w c_is_player of
        [] \<Rightarrow> None
      | (entity, flag) # rest \<Rightarrow> Some entity)"

definition log_component_not_found :: "entity_id \<Rightarrow> component_kind \<Rightarrow> world \<Rightarrow> world" where
  "log_component_not_found entity kind w = write_log (ComponentNotFound entity kind) w"

definition get_entitys_component ::
  "world \<Rightarrow> entity_id \<Rightarrow> component_kind \<Rightarrow> (components \<Rightarrow> 'c option) \<Rightarrow> (py_error + 'c option) \<times> world"
where
  "get_entitys_component w entity kind sel =
     (case has_component w entity sel of
        Inl err \<Rightarrow> (Inl err, w)
      | Inr True \<Rightarrow> (Inr (sel (the (store w entity))), w)
      | Inr False \<Rightarrow> (Inr None, log_component_not_found entity kind w))"

definition get_identity :: "world \<Rightarrow> entity_id \<Rightarrow> (py_error + identity option) \<times> world" where
  "get_identity w entity = get_entitys_component w entity Identity c_identity"

definition get_name :: "world \<Rightarrow> entity_id \<Rightarrow> (py_error + string) \<times> world" where
  "get_name w entity =
     (case get_identity w entity of
        (Inl err, w1) \<Rightarrow> (Inl err, w1)
      | (Inr (Some ident), w1) \<Rightarrow> (Inr (name ident), w1)
      | (Inr None, w1) \<Rightarrow> (Inr ''not found'', w1))"

text \<open>
  \<^verbatim>\<open>spend_time\<close>: the lookup and the addition are inside \<^verbatim>\<open>try\<close>, and only
  \<open>KeyError\<close> is caught. Reading \<^verbatim>\<open>time_spent\<close> of \<^verbatim>\<open>None\<close> raises \<open>AttributeError\<close>.
\<close>

definition spend_time_body :: "world \<Rightarrow> entity_id \<Rightarrow> int \<Rightarrow> (py_error + unit) \<times> world" where
  "spend_time_body w entity spent =
     (case get_entitys_component w entity Tracked c_tracked of
        (Inl err, w1) \<Rightarrow> (Inl err, w1)
      | (Inr None, w1) \<Rightarrow> (Inl AttributeError, w1)
      | (Inr (Some tr), w1) \<Rightarrow>
          (Inr (),
           update_components entity
             (\<lambda>cs. cs\<lparr>c_tracked := Some (tr\<lparr>time_spent := time_spent tr + spent\<rparr>)\<rparr>) w1))"

definition spend_time :: "world \<Rightarrow> entity_id \<Rightarrow> int \<Rightarrow> (py_error + unit) \<times> world" where
  "spend_time w entity spent =
     (case spend_time_body w entity spent of
        (Inl KeyError, w1) \<Rightarrow> (Inr (), log_component_not_found entity Tracked w1)
      | (Inl err, w1) \<Rightarrow> (Inl err, w1)
      | (Inr u, w1) \<Rightarrow> (Inr u, w1))"

text \<open>
  \<^verbatim>\<open>take_turn\<close>: what a behaviour policy does when it acts is content outside the core, so
  \<open>act\<close> is a parameter.
\<close>

definition take_turn ::
  "(behaviour \<Rightarrow> world \<Rightarrow> (py_error + unit) \<times> world) \<Rightarrow> world \<Rightarrow> entity_id \<Rightarrow> (py_error + unit) \<times> world"
where
  "take_turn act w entity =
     (case get_name w entity of
        (Inl err, w1) \<Rightarrow> (Inl err, w1)
      | (Inr nm, w1) \<Rightarrow>
          (let w2 = write_log (LogDebug (''is beginning their turn: '' @ nm)) w1 in
           case get_entitys_component w2 entity Behaviour c_behaviour of
             (Inl err, w3) \<Rightarrow> (Inl err, w3)
           | (Inr None, w3) \<Rightarrow> (Inl AttributeError, w3)
           | (Inr (Some b), w3) \<Rightarrow> act b w3))"

definition apply_damage :: "world \<Rightarrow> entity_id \<Rightarrow> int \<Rightarrow> (py_error + int) \<times> world" where
  "apply_damage w entity damage =
     (case get_entitys_component w entity Resources c_resources of
        (Inl err, w1) \<Rightarrow> (Inl err, w1)
      | (Inr None, w1) \<Rightarrow> (Inl AttributeError, w1)
      | (Inr (Some resource), w1) \<Rightarrow>
          (let resource' = resource\<lparr>health := health resource - damage\<rparr> in
           (Inr (health resource'),
            update_components entity (\<lambda>cs. cs\<lparr>c_resources := Some resource'\<rparr>) w1)))"

text \<open>
  \<^verbatim>\<open>snecs.schedule_for_deletion\<close> adds the entity to a set: scheduling an entity that is
  already scheduled changes nothing. The set is kept as a list without repetition.
\<close>

definition schedule_for_deletion :: "entity_id \<Rightarrow> world \<Rightarrow> world" where
  "schedule_for_deletion e w =
     (if e \<in> set (scheduled w) then w else w\<lparr>scheduled := scheduled w @ [e]\<rparr>)"

text \<open>
  \<^verbatim>\<open>delete\<close>: the test \<^verbatim>\<open>if entity\<close> is false for \<^verbatim>\<open>None\<close> and for the identifier 0.
\<close>

definition delete :: "world \<Rightarrow> entity_id option \<Rightarrow> (py_error + unit) \<times> world" where
  "delete w entity =
     (case entity of
        None \<Rightarrow> (Inr (), write_log (LogError ''Tried to delete an entity but entity was None.'') w)
      | Some e \<Rightarrow>
          if e = 0 then
            (Inr (), write_log (LogError ''Tried to delete an entity but entity was None.'') w)
          else if store w e \<noteq> None then
            (let w1 = schedule_for_deletion e w in
             case get_name w1 e of
               (Inl err, w2) \<Rightarrow> (Inl err, w2)
             | (Inr nm, w2) \<Rightarrow>
                 (Inr (), write_log (LogInfo (nm @ '' added to stack to be deleted on next frame.'') e) w2))
          else
            (Inr (), write_log (LogWarning ''Tried to delete entity but they don't exist!'' e) w))"

section \<open>Activation and visibility\<close>

text \<open>
  \<^verbatim>\<open>scripts/engine/core/system.py\<close>. Its module \<^verbatim>\<open>matter\<close> is the entity store above under
  its later name (\<^verbatim>\<open>entity_has_component\<close>, \<^verbatim>\<open>add_component\<close>, \<^verbatim>\<open>remove_component\<close>,
  \<^verbatim>\<open>get_player\<close>, \<^verbatim>\<open>get_entitys_component\<close>), and \<^verbatim>\<open>hourglass.get_time\<close> reads the global
  time. The constant \<^verbatim>\<open>MAX_ACTIVATION_DISTANCE\<close> is a parameter.
\<close>

definition add_component :: "entity_id \<Rightarrow> (components \<Rightarrow> components) \<Rightarrow> world \<Rightarrow> world" where
  "add_component entity attach w = update_components entity attach w"

definition remove_component :: "entity_id \<Rightarrow> (components \<Rightarrow> components) \<Rightarrow> world \<Rightarrow> world" where
  "remove_component entity detach w = update_components entity detach w"

text \<open>
  Modelled from the spec: the compiled queries of \<^verbatim>\<open>scripts.engine.core.query\<close> are missing.
  A query is a finite sequence of the entities that match a set of component kinds, with
  the matching components: \<^verbatim>\<open>query.position\<close> yields the entities with a Position,
  \<^verbatim>\<open>query.not_position\<close> those without one.
\<close>

definition query_position :: "world \<Rightarrow> (entity_id \<times> position) list" where
  "query_position w = get_components w c_position"

definition query_not_position :: "world \<Rightarrow> entity_id list" where
  "query_not_position w =
     filter (\<lambda>e. case store w e of None \<Rightarrow> False | Some cs \<Rightarrow> c_position cs = None) (ids w)"

definition activate_unpositioned :: "entity_id \<Rightarrow> world \<Rightarrow> (py_error + unit) \<times> world" where
  "activate_unpositioned entity w =
     (case has_component w entity c_is_active of
        Inl err \<Rightarrow> (Inl err, w)
      | Inr True \<Rightarrow> (Inr (), w)
      | Inr False \<Rightarrow> (Inr (), add_component entity (\<lambda>cs. cs\<lparr>c_is_active := Some ()\<rparr>) w))"

fun process_unpositioned :: "entity_id list \<Rightarrow> world \<Rightarrow> (py_error + unit) \<times> world" where
  "process_unpositioned [] w = (Inr (), w)"
| "process_unpositioned (entity # rest) w =
     (case activate_unpositioned entity w of
        (Inl err, w1) \<Rightarrow> (Inl err, w1)
      | (Inr u, w1) \<Rightarrow> process_unpositioned rest w1)"

text \<open>
  The body of the loop over \<^verbatim>\<open>query.position\<close>. \<^verbatim>\<open>player_pos\<close> is what the lookup of the
  player's Position returned, \<^verbatim>\<open>None\<close> when the player has none.
\<close>

definition activate_positioned ::
  "int \<Rightarrow> position option \<Rightarrow> entity_id \<Rightarrow> position \<Rightarrow> world \<Rightarrow> (py_error + unit) \<times> world"
where
  "activate_positioned max_activation_distance player_pos entity pos w =
     (case player_pos of
        None \<Rightarrow> (Inl AttributeError, w)
      | Some pp \<Rightarrow>
          (let distance_x = \<bar>pos_x pp - pos_x pos\<bar>;
               distance_y = \<bar>pos_y pp - pos_y pos\<bar>
           in
           if max distance_x distance_y < max_activation_distance then
             (case has_component w entity c_is_active of
                Inl err \<Rightarrow> (Inl err, w)
              | Inr True \<Rightarrow> (Inr (), w)
              | Inr False \<Rightarrow>
                  (let w1 = add_component entity (\<lambda>cs. cs\<lparr>c_is_active := Some ()\<rparr>) w in
                   case has_component w1 entity c_tracked of
                     Inl err \<Rightarrow> (Inl err, w1)
                   | Inr False \<Rightarrow> (Inr (), w1)
                   | Inr True \<Rightarrow>
                       (case get_entitys_component w1 entity Tracked c_tracked of
                          (Inl err, w2) \<Rightarrow> (Inl err, w2)
                        | (Inr None, w2) \<Rightarrow> (Inl AttributeError, w2)
                        | (Inr (Some tr), w2) \<Rightarrow>
                            (Inr (),
                             update_components entity
                               (\<lambda>cs. cs\<lparr>c_tracked := Some (tr\<lparr>time_spent := time w2 + 1\<rparr>)\<rparr>)
                               w2))))
           else
             (case has_component w entity c_is_active of
                Inl err \<Rightarrow> (Inl err, w)
              | Inr True \<Rightarrow>
                  (Inr (), remove_component entity (\<lambda>cs. cs\<lparr>c_is_active := None\<rparr>) w)
              | Inr False \<Rightarrow> (Inr (), w))))"

fun process_positioned ::
  "int \<Rightarrow> position option \<Rightarrow> (entity_id \<times> position) list \<Rightarrow> world \<Rightarrow> (py_error + unit) \<times> world"
where
  "process_positioned max_activation_distance player_pos [] w = (Inr (), w)"
| "process_positioned max_activation_distance player_pos ((entity, pos) # rest) w =
     (case activate_positioned max_activation_distance player_pos entity pos w of
        (Inl err, w1) \<Rightarrow> (Inl err, w1)
      | (Inr u, w1) \<Rightarrow> process_positioned max_activation_distance player_pos rest w1)"

text \<open>
  \<^verbatim>\<open>process_activations\<close>. Without a player the lookup of its Position is a lookup of
  \<^verbatim>\<open>None\<close> in the world, a \<open>KeyError\<close>.
\<close>

definition process_activations :: "int \<Rightarrow> world \<Rightarrow> (py_error + unit) \<times> world" where
  "process_activations max_activation_distance w =
     (case process_unpositioned (query_not_position w) w of
        (Inl err, w1) \<Rightarrow> (Inl err, w1)
      | (Inr u, w1) \<Rightarrow>
          (case get_player w1 of
             None \<Rightarrow> (Inl KeyError, w1)
           | Some player \<Rightarrow>
               (case get_entitys_component w1 player Position c_position of
                  (Inl err, w2) \<Rightarrow> (Inl err, w2)
                | (Inr player_pos, w2) \<Rightarrow>
                    process_positioned max_activation_distance player_pos (query_position w2) w2)))"

subsection \<open>The activation pass on one entity\<close>

text \<open>
  The test of the pass on a position, and what the two loop bodies leave of the
  components of one entity, written as a function of the components: the flag is attached
  to an entity without a position; for an entity with a position the flag is attached when
  the test holds, with the tracked time set to the global time plus one if the flag was
  absent, and removed otherwise. The loops are proved to compute it below.
\<close>

definition in_reach :: "int \<Rightarrow> position \<Rightarrow> position \<Rightarrow> bool" where
  "in_reach max_activation_distance pp pos =
     (max \<bar>pos_x pp - pos_x pos\<bar> \<bar>pos_y pp - pos_y pos\<bar> < max_activation_distance)"

definition after_pass :: "int \<Rightarrow> position \<Rightarrow> int \<Rightarrow> components \<Rightarrow> components" where
  "after_pass max_activation_distance pp now cs =
     (case c_position cs of
        None \<Rightarrow> cs\<lparr>c_is_active := Some ()\<rparr>
      | Some pos \<Rightarrow>
          if in_reach max_activation_distance pp pos then
            (if c_is_active cs \<noteq> None then cs
             else cs\<lparr>c_is_active := Some (),
                     c_tracked := map_option (\<lambda>tr. tr\<lparr>time_spent := now + 1\<rparr>) (c_tracked cs)\<rparr>)
          else cs\<lparr>c_is_active := None\<rparr>)"

definition pass_over :: "(components \<Rightarrow> components) \<Rightarrow> entity_id list \<Rightarrow> world \<Rightarrow> world" where
  "pass_over g es w =
     w\<lparr>store := (\<lambda>e. if e \<in> set es then map_option g (store w e) else store w e)\<rparr>"

subsection \<open>Field of view\<close>

text \<open>
  The transparency layer is a two-dimensional numpy array indexed \<^verbatim>\<open>[x, y]\<close>: a negative
  index counts from the end, an index out of range raises \<open>IndexError\<close>. A cell is
  \<open>True\<close> where sight passes; the loop writes 0, that is \<open>False\<close>.
\<close>

definition np_index :: "nat \<Rightarrow> int \<Rightarrow> py_error + nat" where
  "np_index n i =
     (let j = (if i < 0 then int n + i else i)
      in if 0 \<le> j \<and> j < int n then Inr (nat j) else Inl IndexError)"

definition np_get :: "'a list list \<Rightarrow> int \<times> int \<Rightarrow> py_error + 'a" where
  "np_get a c =
     (case np_index (length a) (fst c) of
        Inl err \<Rightarrow> Inl err
      | Inr i \<Rightarrow>
          (case np_index (length (a ! i)) (snd c) of
             Inl err \<Rightarrow> Inl err
           | Inr j \<Rightarrow> Inr (a ! i ! j)))"

definition np_set :: "'a list list \<Rightarrow> int \<times> int \<Rightarrow> 'a \<Rightarrow> py_error + 'a list list" where
  "np_set a c v =
     (case np_index (length a) (fst c) of
        Inl err \<Rightarrow> Inl err
      | Inr i \<Rightarrow>
          (case np_index (length (a ! i)) (snd c) of
             Inl err \<Rightarrow> Inl err
           | Inr j \<Rightarrow> Inr (a[i := (a ! i)[j := v]])))"

text \<open>\<^verbatim>\<open>for x, y in other_pos.coordinates: updated_block_sight_map[x, y] = 0\<close>\<close>

fun set_blocking :: "(int \<times> int) list \<Rightarrow> bool list list \<Rightarrow> py_error + bool list list" where
  "set_blocking [] m = Inr m"
| "set_blocking (c # rest) m =
     (case np_set m c False of
        Inl err \<Rightarrow> Inl err
      | Inr m1 \<Rightarrow> set_blocking rest m1)"

text \<open>
  The inner loop of \<^verbatim>\<open>process_fov\<close> for one viewing entity of the given height, over the
  entities of \<^verbatim>\<open>query.active_and_position_and_physicality\<close> (each with its Position and
  the height of its Physicality).
\<close>

fun block_sight_for ::
  "entity_id \<Rightarrow> int \<Rightarrow> (entity_id \<times> position \<times> int) list \<Rightarrow> bool list list \<Rightarrow> py_error + bool list list"
where
  "block_sight_for entity height [] m = Inr m"
| "block_sight_for entity height ((other_entity, other_pos, other_height) # rest) m =
     (if entity = other_entity then block_sight_for entity height rest m
      else if height > other_height then block_sight_for entity height rest m
      else
        (case set_blocking (coordinates other_pos) m of
           Inl err \<Rightarrow> Inl err
         | Inr m1 \<Rightarrow> block_sight_for entity height rest m1))"

text \<open>A coordinate that indexes a cell of the layer.\<close>

definition in_map :: "bool list list \<Rightarrow> int \<times> int \<Rightarrow> bool" where
  "in_map m c = (case np_get m c of Inl err \<Rightarrow> False | Inr v \<Rightarrow> True)"

text \<open>
  Modelled from the spec: \<^verbatim>\<open>query.active_and_position_and_physicality\<close> and
  \<^verbatim>\<open>query.active_actors\<close> of the missing \<^verbatim>\<open>scripts.engine.core.query\<close>, as the active
  entities that hold the components the loops of \<^verbatim>\<open>process_fov\<close> unpack and use.
\<close>

definition query_active_and_position_and_physicality ::
  "world \<Rightarrow> (entity_id \<times> position \<times> int) list"
where
  "query_active_and_position_and_physicality w =
     List.map_filter
       (\<lambda>e. case store w e of
              None \<Rightarrow> None
            | Some cs \<Rightarrow>
                (case (c_is_active cs, c_position cs, c_physicality cs) of
                   (Some a, Some pos, Some h) \<Rightarrow> Some (e, pos, h)
                 | _ \<Rightarrow> None))
       (ids w)"

definition query_active_actors :: "world \<Rightarrow> (entity_id \<times> position \<times> int) list" where
  "query_active_actors w =
     List.map_filter
       (\<lambda>e. case store w e of
              None \<Rightarrow> None
            | Some cs \<Rightarrow>
                (case (c_is_active cs, c_position cs, c_physicality cs, c_identity cs,
                       c_fov cs, c_tracked cs) of
                   (Some a, Some pos, Some h, Some i, Some f, Some t) \<Rightarrow> Some (e, pos, h)
                 | _ \<Rightarrow> None))
       (ids w)"

text \<open>
  \<^verbatim>\<open>process_fov\<close>; \<^verbatim>\<open>tcod.map.compute_fov\<close> is the parameter \<open>compute_fov\<close>, given the
  transparency layer, the origin and the sight range.
\<close>

definition fov_of_actor ::
  "(bool list list \<Rightarrow> int \<times> int \<Rightarrow> int \<Rightarrow> bool list list) \<Rightarrow> bool list list \<Rightarrow>
   entity_id \<Rightarrow> position \<Rightarrow> int \<Rightarrow> world \<Rightarrow> (py_error + unit) \<times> world"
where
  "fov_of_actor compute_fov block_sight_map entity pos height w =
     (case block_sight_for entity height (query_active_and_position_and_physicality w)
             block_sight_map of
        Inl err \<Rightarrow> (Inl err, w)
      | Inr updated_block_sight_map \<Rightarrow>
          (case get_entitys_component w entity Sight c_sight of
             (Inl err, w1) \<Rightarrow> (Inl err, w1)
           | (Inr None, w1) \<Rightarrow> (Inl AttributeError, w1)
           | (Inr (Some sight_range), w1) \<Rightarrow>
               (Inr (),
                update_components entity
                  (\<lambda>cs. cs\<lparr>c_fov :=
                     Some (compute_fov updated_block_sight_map (pos_x pos, pos_y pos) sight_range)\<rparr>)
                  w1)))"

fun process_fov_loop ::
  "(bool list list \<Rightarrow> int \<times> int \<Rightarrow> int \<Rightarrow> bool list list) \<Rightarrow> bool list list \<Rightarrow>
   (entity_id \<times> position \<times> int) list \<Rightarrow> world \<Rightarrow> (py_error + unit) \<times> world"
where
  "process_fov_loop compute_fov block_sight_map [] w = (Inr (), w)"
| "process_fov_loop compute_fov block_sight_map ((entity, pos, height) # rest) w =
     (case fov_of_actor compute_fov block_sight_map entity pos height w of
        (Inl err, w1) \<Rightarrow> (Inl err, w1)
      | (Inr u, w1) \<Rightarrow> process_fov_loop compute_fov block_sight_map rest w1)"

definition process_fov ::
  "(bool list list \<Rightarrow> int \<times> int \<Rightarrow> int \<Rightarrow> bool list list) \<Rightarrow> bool list list \<Rightarrow>
   world \<Rightarrow> (py_error + unit) \<times> world"
where
  "process_fov compute_fov block_sight_map w =
     process_fov_loop compute_fov block_sight_map (query_active_actors w) w"

section \<open>Skill activation\<close>

text \<open>
  \<^verbatim>\<open>scripts/nqp/skills.py\<close>. An effect is an object, and its lists of follow-up effects
  hold references to effect objects, so an effect is an address into a table of effect
  data. Of the fields of \<^verbatim>\<open>EffectData\<close> the loop reads the two follow-up lists, and the
  shape, which only selects the tiles handed to \<^verbatim>\<open>act.process_effect\<close>.

  \<^verbatim>\<open>act.process_effect\<close> is outside the core; its results are the parameter \<open>outcome\<close>:
  \<open>outcome n\<close> is what the call number \<open>n\<close> of the activation returns. The loop records
  the calls, each with its effect and target tile, in the order they are made.
\<close>

type_synonym effect_ref = nat
type_synonym tile = "int \<times> int"

record effect_data =
  success_effects :: "effect_ref list"
  fail_effects :: "effect_ref list"

type_synonym effect_table = "effect_ref \<Rightarrow> effect_data"

definition process_result :: "effect_table \<Rightarrow> bool \<Rightarrow> effect_ref \<Rightarrow> effect_ref list" where
  "process_result table result effect =
     (if result \<and> success_effects (table effect) \<noteq> [] then success_effects (table effect)
      else if \<not> result \<and> fail_effects (table effect) \<noteq> [] then fail_effects (table effect)
      else [])"

text \<open>\<^verbatim>\<open>Lunge.activate\<close>: the loop over the target tiles for the effect popped.\<close>

fun lunge_tiles ::
  "effect_table \<Rightarrow> (nat \<Rightarrow> bool) \<Rightarrow> effect_ref \<Rightarrow> tile list \<Rightarrow> effect_ref list \<Rightarrow>
   (effect_ref \<times> tile) list \<Rightarrow> effect_ref list \<times> (effect_ref \<times> tile) list"
where
  "lunge_tiles table outcome effect [] effects applied = (effects, applied)"
| "lunge_tiles table outcome effect (tile # rest) effects applied =
     (let result = outcome (length applied);
          result_effects = process_result table result effect
      in lunge_tiles table outcome effect rest
           (if result_effects \<noteq> [] then effects @ result_effects else effects)
           (applied @ [(effect, tile)]))"

text \<open>
  \<^verbatim>\<open>while effects: effect = effects.pop()\<close>: \<^verbatim>\<open>pop\<close> without an index removes the last
  element of the list. The loop may run forever, so it is a partial function: \<open>None\<close>
  is "does not return".
\<close>

partial_function (option) lunge_loop ::
  "effect_table \<Rightarrow> (nat \<Rightarrow> bool) \<Rightarrow> tile list \<Rightarrow> effect_ref list \<Rightarrow>
   (effect_ref \<times> tile) list \<Rightarrow> (effect_ref \<times> tile) list option"
where
  "lunge_loop table outcome target_tiles effects applied =
     (if effects = [] then Some applied
      else
        (case lunge_tiles table outcome (last effects) target_tiles (butlast effects) applied of
           (effects1, applied1) \<Rightarrow> lunge_loop table outcome target_tiles effects1 applied1))"

definition lunge_activate ::
  "effect_table \<Rightarrow> (nat \<Rightarrow> bool) \<Rightarrow> effect_ref list \<Rightarrow> tile list \<Rightarrow> (effect_ref \<times> tile) list option"
where
  "lunge_activate table outcome create_effects target_tiles =
     lunge_loop table outcome target_tiles create_effects []"

text \<open>
  \<^verbatim>\<open>Lunge.create_effects\<close>: the move effect is appended first, the damage effect second;
  neither is given follow-up effects.
\<close>

definition move_effect :: effect_ref where
  "move_effect = 0"

definition damage_effect :: effect_ref where
  "damage_effect = 1"

definition lunge_table :: effect_table where
  "lunge_table = (\<lambda>e. \<lparr>success_effects = [], fail_effects = []\<rparr>)"

definition lunge_create_effects :: "effect_ref list" where
  "lunge_create_effects = [move_effect, damage_effect]"





subsection \<open>The order the specification asks for\<close>

text \<open>
  First in, first out, in the words of the specification: the effect processed next is
  the one that was queued first, and follow-up effects join the end of the queue.
\<close>

partial_function (option) fifo_loop ::
  "effect_table \<Rightarrow> (nat \<Rightarrow> bool) \<Rightarrow> tile list \<Rightarrow> effect_ref list \<Rightarrow>
   (effect_ref \<times> tile) list \<Rightarrow> (effect_ref \<times> tile) list option"
where
  "fifo_loop table outcome target_tiles effects applied =
     (case effects of
        [] \<Rightarrow> Some applied
      | effect # waiting \<Rightarrow>
          (case lunge_tiles table outcome effect target_tiles waiting applied of
             (effects1, applied1) \<Rightarrow> fifo_loop table outcome target_tiles effects1 applied1))"

definition fifo_activate ::
  "effect_table \<Rightarrow> (nat \<Rightarrow> bool) \<Rightarrow> effect_ref list \<Rightarrow> tile list \<Rightarrow> (effect_ref \<times> tile) list option"
where
  "fifo_activate table outcome create_effects target_tiles =
     fifo_loop table outcome target_tiles create_effects []"

subsection \<open>Follow-up graphs\<close>









section \<open>Entity event handler\<close>

text \<open>
  \<^verbatim>\<open>scripts/nqp/entity_handler.py\<close>. Its module \<^verbatim>\<open>entity\<close> is the entity store above. The
  skill table of the library and the functions of the module \<^verbatim>\<open>skill\<close> are parameters.
\<close>

datatype resource_type = HEALTH | STAMINA

record skill_data =
  resource_type :: "resource_type option"
  resource_cost :: int
  time_cost :: int

record skill_module =
  can_afford_cost :: "world \<Rightarrow> entity_id \<Rightarrow> resource_type \<Rightarrow> int \<Rightarrow> bool"
  pay_resource_cost :: "world \<Rightarrow> entity_id \<Rightarrow> resource_type \<Rightarrow> int \<Rightarrow> (py_error + unit) \<times> world"
  use :: "world \<Rightarrow> entity_id \<Rightarrow> string \<Rightarrow> int \<times> int \<Rightarrow> int \<times> int \<Rightarrow> (py_error + unit) \<times> world"

definition process_skill ::
  "skill_module \<Rightarrow> (string \<Rightarrow> skill_data) \<Rightarrow> world \<Rightarrow> entity_id \<Rightarrow> string \<Rightarrow> int \<times> int \<Rightarrow>
   int \<times> int \<Rightarrow> (py_error + unit) \<times> world"
where
  "process_skill skill get_skill_data w ent skill_name start_pos direction =
     (let skill_data = get_skill_data skill_name in
      case resource_type skill_data of
        None \<Rightarrow> (Inr (), w)
      | Some rt \<Rightarrow>
          if can_afford_cost skill w ent rt (resource_cost skill_data) then
            (case pay_resource_cost skill w ent rt (resource_cost skill_data) of
               (Inl err, w1) \<Rightarrow> (Inl err, w1)
             | (Inr u, w1) \<Rightarrow>
                 (case use skill w1 ent skill_name start_pos direction of
                    (Inl err, w2) \<Rightarrow> (Inl err, w2)
                  | (Inr u, w2) \<Rightarrow>
                      (case has_component w2 ent c_is_god of
                         Inl err \<Rightarrow> (Inl err, w2)
                       | Inr True \<Rightarrow> (Inr (), w2)
                       | Inr False \<Rightarrow>
                           (Inr (), publish (EndTurnEvent ent (time_cost skill_data)) w2))))
          else if Some ent = get_player w then
            (Inr (), publish (MessageEvent LOG ''You cannot afford to do that.'') w)
          else
            (case get_name w ent of
               (Inl err, w1) \<Rightarrow> (Inl err, w1)
             | (Inr nm, w1) \<Rightarrow>
                 (Inr (),
                  write_log
                    (LogWarning (nm @ '' tried to use '' @ skill_name @ '', which they can`t afford'') ent)
                    w1)))"

definition process_end_turn :: "world \<Rightarrow> entity_id \<Rightarrow> int \<Rightarrow> (py_error + unit) \<times> world" where
  "process_end_turn w entity spent = spend_time w entity spent"

text \<open>
  \<^verbatim>\<open>process_die\<close>. The dying entity is the local \<^verbatim>\<open>ent\<close>; the test for a new queue compares
  the name \<^verbatim>\<open>entity\<close>, which is the imported module, with the turn holder and with the
  player. A Python value here is a module, an entity identifier or \<^verbatim>\<open>None\<close>, and \<^verbatim>\<open>==\<close> on
  them is equality of these values.
\<close>

datatype py_value = PyModule string | PyEntity entity_id | PyNone

definition entity_module :: py_value where
  "entity_module = PyModule ''scripts.engine.entity''"

definition py_entity :: "entity_id option \<Rightarrow> py_value" where
  "py_entity e = (case e of None \<Rightarrow> PyNone | Some i \<Rightarrow> PyEntity i)"

definition get_turn_holder :: "world \<Rightarrow> py_value" where
  "get_turn_holder w = py_entity (turn_holder w)"

text \<open>\<^verbatim>\<open>if ent in turn_queue: turn_queue.pop(ent)\<close> on the dict of the turn queue.\<close>

definition pop_from_turn_queue :: "entity_id \<Rightarrow> world \<Rightarrow> world" where
  "pop_from_turn_queue ent w =
     (if ent \<in> fst ` set (turn_queue w)
      then w\<lparr>turn_queue := filter (\<lambda>entry. fst entry \<noteq> ent) (turn_queue w)\<rparr>
      else w)"

definition process_die :: "(world \<Rightarrow> world) \<Rightarrow> world \<Rightarrow> entity_id \<Rightarrow> (py_error + unit) \<times> world" where
  "process_die build_new_turn_queue w ent =
     (let w1 = pop_from_turn_queue ent w;
          w2 = (if entity_module = get_turn_holder w1 \<and> entity_module \<noteq> py_entity (get_player w1)
                then build_new_turn_queue w1 else w1)
      in delete w2 (Some ent))"

section \<open>Example states\<close>

text \<open>
  A small world for the concrete instances below: the player at the origin, a rat next to
  the player that is not active and whose tracked time (40) is ahead of the global time
  (5), a god (no position, not tracked, no behaviour), a bat far away, and a crab at a
  distance of exactly 4. The bat holds the turn.
\<close>

definition player_components :: components where
  "player_components =
     no_components
       \<lparr>c_position := Some \<lparr>pos_x = 0, pos_y = 0, coordinates = [(0, 0)]\<rparr>,
        c_resources := Some \<lparr>health = 10, stamina = 3\<rparr>,
        c_tracked := Some \<lparr>time_spent = 0\<rparr>,
        c_identity := Some \<lparr>name = ''player'', description = ''the player''\<rparr>,
        c_is_active := Some (),
        c_is_player := Some ()\<rparr>"

definition rat_components :: components where
  "rat_components =
     no_components
       \<lparr>c_position := Some \<lparr>pos_x = 1, pos_y = 0, coordinates = [(1, 0)]\<rparr>,
        c_resources := Some \<lparr>health = 3, stamina = 2\<rparr>,
        c_tracked := Some \<lparr>time_spent = 40\<rparr>,
        c_behaviour := Some (SkipTurn 2),
        c_identity := Some \<lparr>name = ''rat'', description = ''a rat''\<rparr>\<rparr>"

definition god_components :: components where
  "god_components =
     no_components
       \<lparr>c_resources := Some \<lparr>health = 999, stamina = 999\<rparr>,
        c_identity := Some \<lparr>name = ''the small gods'', description = ''a god''\<rparr>,
        c_is_god := Some ()\<rparr>"

definition bat_components :: components where
  "bat_components =
     no_components
       \<lparr>c_position := Some \<lparr>pos_x = 9, pos_y = 9, coordinates = [(9, 9)]\<rparr>,
        c_resources := Some \<lparr>health = 4, stamina = 4\<rparr>,
        c_tracked := Some \<lparr>time_spent = 7\<rparr>,
        c_behaviour := Some (SkipTurn 4),
        c_identity := Some \<lparr>name = ''bat'', description = ''a bat''\<rparr>,
        c_is_active := Some ()\<rparr>"

definition crab_components :: components where
  "crab_components =
     no_components
       \<lparr>c_position := Some \<lparr>pos_x = 4, pos_y = 0, coordinates = [(4, 0)]\<rparr>,
        c_tracked := Some \<lparr>time_spent = 5\<rparr>,
        c_identity := Some \<lparr>name = ''crab'', description = ''a crab''\<rparr>,
        c_is_active := Some ()\<rparr>"

definition example_world :: world where
  "example_world =
     \<lparr>ids = [1, 2, 3, 4, 5],
      store = [1 \<mapsto> player_components, 2 \<mapsto> rat_components, 3 \<mapsto> god_components,
               4 \<mapsto> bat_components, 5 \<mapsto> crab_components],
      scheduled = [],
      time = 5,
      turn_queue = [(1, 0), (4, 7)],
      turn_holder = Some 4,
      published = [],
      log = []\<rparr>"

text \<open>The example with the tracked time of the rat set to \<open>t\<close>.\<close>

definition rat_tracked_at :: "int \<Rightarrow> world" where
  "rat_tracked_at t =
     example_world
       \<lparr>store := (store example_world)(2 \<mapsto> rat_components\<lparr>c_tracked := Some \<lparr>time_spent = t\<rparr>\<rparr>)\<rparr>"

text \<open>
  For the field of view: a layer of three by three transparent cells, and two entities at
  a distance of one tile from a viewer of height 2 at the origin, one of height 3 and one
  of height 1.
\<close>

definition open_map :: "bool list list" where
  "open_map = [[True, True, True], [True, True, True], [True, True, True]]"

definition tall_blocker :: "entity_id \<times> position \<times> int" where
  "tall_blocker = (2, \<lparr>pos_x = 1, pos_y = 0, coordinates = [(1, 0)]\<rparr>, 3)"

definition short_blocker :: "entity_id \<times> position \<times> int" where
  "short_blocker = (3, \<lparr>pos_x = 0, pos_y = 1, coordinates = [(0, 1)]\<rparr>, 1)"

text \<open>
  An instance of the module \<^verbatim>\<open>skill\<close> for the concrete cases. Modelled from the spec:
  \<^verbatim>\<open>scripts.engine.skill\<close> is missing. The actor can afford a cost that its resource
  covers, paying deducts the cost, and using the skill is left without effect here.
\<close>

definition resource_amount :: "resource_type \<Rightarrow> resources \<Rightarrow> int" where
  "resource_amount rt r = (case rt of HEALTH \<Rightarrow> health r | STAMINA \<Rightarrow> stamina r)"

definition example_skill_module :: skill_module where
  "example_skill_module =
     \<lparr>can_afford_cost =
        (\<lambda>w ent rt cost.
           case store w ent of
             None \<Rightarrow> False
           | Some cs \<Rightarrow>
               (case c_resources cs of None \<Rightarrow> False | Some r \<Rightarrow> cost \<le> resource_amount rt r)),
      pay_resource_cost =
        (\<lambda>w ent rt cost.
           (Inr (),
            update_components ent
              (\<lambda>cs. cs\<lparr>c_resources :=
                 map_option
                   (\<lambda>r. case rt of
                          HEALTH \<Rightarrow> r\<lparr>health := health r - cost\<rparr>
                        | STAMINA \<Rightarrow> r\<lparr>stamina := stamina r - cost\<rparr>)
                   (c_resources cs)\<rparr>)
              w)),
      use = (\<lambda>w ent skill_name start_pos direction. (Inr (), w))\<rparr>"

definition example_skill_data :: "string \<Rightarrow> skill_data" where
  "example_skill_data skill_name =
     \<lparr>resource_type = Some STAMINA, resource_cost = 5, time_cost = 30\<rparr>"

section \<open>Properties of the entity store\<close>

lemmas store_simps =
  has_component_def get_entitys_component_def log_component_not_found_def
  write_log_def update_components_def publish_def

lemmas example_defs =
  example_world_def player_components_def rat_components_def god_components_def
  bat_components_def crab_components_def no_components_def

lemma example_player: "get_player example_world = Some 1"
  by (simp add: get_player_def get_components_def example_defs)

text \<open>
  C10. For an entity with a Resources component and any damage amount, \<^verbatim>\<open>apply_damage\<close>
  returns the health less the damage, and the state it leaves is the state before with
  the health of that component replaced by this value and nothing else changed: the
  result is not clamped at zero, no event is published, no other component, entity or
  part of the state is touched.
\<close>

theorem apply_damage_exact:
  assumes "store w entity = Some cs" and "c_resources cs = Some r"
  shows "apply_damage w entity damage =
           (Inr (health r - damage),
            w\<lparr>store := (store w)(entity \<mapsto>
                 cs\<lparr>c_resources := Some (r\<lparr>health := health r - damage\<rparr>)\<rparr>)\<rparr>)"
  using assms by (simp add: apply_damage_def store_simps)

theorem apply_damage_exact_witness:
  "fst (apply_damage example_world 2 5) = Inr (- 2) \<and>
   published (snd (apply_damage example_world 2 5)) = [] \<and>
   store (snd (apply_damage example_world 2 5)) 2 =
     Some (rat_components\<lparr>c_resources := Some \<lparr>health = - 2, stamina = 2\<rparr>\<rparr>)"
  using apply_damage_exact [of example_world 2 rat_components "\<lparr>health = 3, stamina = 2\<rparr>" 5]
  by (simp add: example_defs)

text \<open>
  C9. The lookup itself is recoverable: it logs and returns \<^verbatim>\<open>None\<close>. The operations
  built on it are not. For the god of the example, an entity that exists and has neither
  a Tracked nor a Behaviour component, \<^verbatim>\<open>spend_time\<close> logs the missing component and then
  raises \<open>AttributeError\<close>, which its handler for \<open>KeyError\<close> does not catch, and
  \<^verbatim>\<open>take_turn\<close> raises \<open>AttributeError\<close> whatever the behaviour policies do.
\<close>

theorem missing_component_raises:
  "spend_time example_world 3 10 =
     (Inl AttributeError, example_world\<lparr>log := [ComponentNotFound 3 Tracked]\<rparr>) \<and>
   take_turn act example_world 3 =
     (Inl AttributeError,
      example_world\<lparr>log := [LogDebug ''is beginning their turn: the small gods'',
                             ComponentNotFound 3 Behaviour]\<rparr>)"
  by (simp add: spend_time_def spend_time_body_def take_turn_def get_name_def get_identity_def
      store_simps example_defs)

section \<open>Properties of the event handler\<close>

text \<open>
  C8, as stated: an actor that cannot afford the cost gets a user-facing message event.
  The rat of the example (stamina 2, cost 5) is not the player: no event is published
  for it.
\<close>

theorem cannot_afford_counterexample:
  "resource_type (example_skill_data ''basic_attack'') = Some STAMINA \<and>
   \<not> can_afford_cost example_skill_module example_world 2 STAMINA
        (resource_cost (example_skill_data ''basic_attack'')) \<and>
   published (snd (process_skill example_skill_module example_skill_data example_world 2
                     ''basic_attack'' (1, 0) (- 1, 0))) = []"
  by (simp add: process_skill_def example_skill_data_def example_skill_module_def resource_amount_def
      get_player_def get_components_def List.map_filter_def get_name_def get_identity_def
      store_simps example_defs)

text \<open>
  C8, amended. When the skill has a resource type and the actor cannot afford its cost,
  \<^verbatim>\<open>process_skill\<close> leaves the state as it was apart from the published events and the
  log (nothing is paid, the skill is not used), and the events published are those
  before, followed by the message "You cannot afford to do that." exactly when the actor
  is the player: no end-turn event, and for any other actor no event at all. For an actor
  that is in the world the handler returns normally, and the state it leaves is exactly:
  for the player, the state before with the message published; for any other actor, the
  state before with one warning written to the log under the actor's name (after the
  line of the lookup, when the actor has no Identity).
\<close>

theorem cannot_afford_no_state_change:
  assumes "resource_type (get_skill_data skill_name) = Some rt"
    and "\<not> can_afford_cost skill w ent rt (resource_cost (get_skill_data skill_name))"
  shows "(snd (process_skill skill get_skill_data w ent skill_name start_pos direction))
            \<lparr>published := published w, log := log w\<rparr> = w \<and>
         published (snd (process_skill skill get_skill_data w ent skill_name start_pos direction)) =
           published w @
             (if Some ent = get_player w then [MessageEvent LOG ''You cannot afford to do that.'']
              else []) \<and>
         (store w ent = Some cs \<longrightarrow>
            process_skill skill get_skill_data w ent skill_name start_pos direction =
              (Inr (),
               if Some ent = get_player w
               then publish (MessageEvent LOG ''You cannot afford to do that.'') w
               else
                 (case c_identity cs of
                    Some ident \<Rightarrow>
                      write_log
                        (LogWarning
                           (name ident @ '' tried to use '' @ skill_name @
                            '', which they can`t afford'') ent)
                        w
                  | None \<Rightarrow>
                      write_log
                        (LogWarning
                           (''not found'' @ '' tried to use '' @ skill_name @
                            '', which they can`t afford'') ent)
                        (write_log (ComponentNotFound ent Identity) w))))"
proof (intro conjI impI)
  show "(snd (process_skill skill get_skill_data w ent skill_name start_pos direction))
            \<lparr>published := published w, log := log w\<rparr> = w"
    using assms
    by (auto simp add: process_skill_def Let_def get_name_def get_identity_def store_simps
        split: option.splits sum.splits bool.splits prod.splits)
next
  show "published (snd (process_skill skill get_skill_data w ent skill_name start_pos direction)) =
           published w @
             (if Some ent = get_player w then [MessageEvent LOG ''You cannot afford to do that.'']
              else [])"
    using assms
    by (auto simp add: process_skill_def Let_def get_name_def get_identity_def store_simps
        split: option.splits sum.splits bool.splits prod.splits)
next
  assume "store w ent = Some cs"
  then show "process_skill skill get_skill_data w ent skill_name start_pos direction =
              (Inr (),
               if Some ent = get_player w
               then publish (MessageEvent LOG ''You cannot afford to do that.'') w
               else
                 (case c_identity cs of
                    Some ident \<Rightarrow>
                      write_log
                        (LogWarning
                           (name ident @ '' tried to use '' @ skill_name @
                            '', which they can`t afford'') ent)
                        w
                  | None \<Rightarrow>
                      write_log
                        (LogWarning
                           (''not found'' @ '' tried to use '' @ skill_name @
                            '', which they can`t afford'') ent)
                        (write_log (ComponentNotFound ent Identity) w)))"
    using assms
    by (cases "c_identity cs")
      (simp_all add: process_skill_def Let_def get_name_def get_identity_def
        get_entitys_component_def has_component_def log_component_not_found_def)
qed

theorem cannot_afford_no_state_change_witness:
  "process_skill example_skill_module example_skill_data example_world 1
     ''basic_attack'' (0, 0) (1, 0) =
     (Inr (), example_world\<lparr>published := [MessageEvent LOG ''You cannot afford to do that.'']\<rparr>) \<and>
   process_skill example_skill_module example_skill_data example_world 2
     ''basic_attack'' (1, 0) (- 1, 0) =
     (Inr (),
      example_world
        \<lparr>log := [LogWarning ''rat tried to use basic_attack, which they can`t afford'' 2]\<rparr>)"
proof -
  have a: "resource_type (example_skill_data ''basic_attack'') = Some STAMINA"
    by (simp add: example_skill_data_def)
  have b1: "\<not> can_afford_cost example_skill_module example_world 1 STAMINA
        (resource_cost (example_skill_data ''basic_attack''))"
    and b2: "\<not> can_afford_cost example_skill_module example_world 2 STAMINA
        (resource_cost (example_skill_data ''basic_attack''))"
    by (simp_all add: example_skill_data_def example_skill_module_def resource_amount_def
        example_defs)
  have s: "store example_world 1 = Some player_components"
    "store example_world 2 = Some rat_components"
    by (simp_all add: example_world_def)
  have i: "c_identity rat_components = Some \<lparr>name = ''rat'', description = ''a rat''\<rparr>"
    by (simp add: rat_components_def no_components_def)
  have e: "published example_world = []" "log example_world = []"
    by (simp_all add: example_world_def)
  have p1: "process_skill example_skill_module example_skill_data example_world 1
              ''basic_attack'' (0, 0) (1, 0) =
            (Inr (), publish (MessageEvent LOG ''You cannot afford to do that.'') example_world)"
    using cannot_afford_no_state_change
      [where get_skill_data = example_skill_data and skill_name = "''basic_attack''"
         and rt = STAMINA and skill = example_skill_module and w = example_world and ent = 1
         and start_pos = "(0, 0)" and direction = "(1, 0)" and cs = player_components, OF a b1,
       THEN conjunct2, THEN conjunct2, THEN mp, OF s(1)]
    by (simp add: example_player)
  have np: "Some 2 \<noteq> get_player example_world"
    by (simp add: example_player)
  have p2: "process_skill example_skill_module example_skill_data example_world 2
              ''basic_attack'' (1, 0) (- 1, 0) =
            (Inr (),
             write_log
               (LogWarning (''rat'' @ '' tried to use '' @ ''basic_attack'' @
                            '', which they can`t afford'') 2)
               example_world)"
    using cannot_afford_no_state_change
      [where get_skill_data = example_skill_data and skill_name = "''basic_attack''"
         and rt = STAMINA and skill = example_skill_module and w = example_world and ent = 2
         and start_pos = "(1, 0)" and direction = "(- 1, 0)" and cs = rat_components, OF a b2,
       THEN conjunct2, THEN conjunct2, THEN mp, OF s(2)]
    by (simp add: np i)
  show ?thesis
    using p1 p2 by (simp add: publish_def write_log_def e)
qed

text \<open>
  C6. The bat holds the turn and is not the player. Whatever
  \<^verbatim>\<open>chrono.build_new_turn_queue\<close> would do, \<^verbatim>\<open>process_die\<close> for the bat does not call it:
  the test compares the module \<^verbatim>\<open>entity\<close> with the turn holder. The bat is taken out of
  the queue and scheduled for deletion, and it stays the turn holder.
\<close>

theorem die_of_turn_holder_no_rebuild:
  "turn_holder example_world = Some 4 \<and> get_player example_world = Some 1 \<and>
   process_die build example_world 4 =
     (Inr (),
      example_world
        \<lparr>scheduled := [4], turn_queue := [(1, 0)],
         log := [LogInfo ''bat added to stack to be deleted on next frame.'' 4]\<rparr>)"
  by (simp add: process_die_def pop_from_turn_queue_def delete_def schedule_for_deletion_def
      entity_module_def
      get_turn_holder_def py_entity_def get_player_def get_components_def List.map_filter_def
      get_name_def get_identity_def store_simps example_defs)

section \<open>Properties of skill activation\<close>

text \<open>
  C1. \<^verbatim>\<open>Lunge.create_effects\<close> queues the move effect first and the damage effect
  second. For every target tile and every outcome, \<^verbatim>\<open>Lunge.activate\<close> applies the damage
  effect first and the move effect second: last in, first out. First in, first out is
  the opposite order.
\<close>

theorem lunge_order_is_lifo:
  "lunge_activate lunge_table outcome lunge_create_effects [t] =
     Some [(damage_effect, t), (move_effect, t)] \<and>
   fifo_activate lunge_table outcome lunge_create_effects [t] =
     Some [(move_effect, t), (damage_effect, t)]"
  by (simp add: lunge_activate_def fifo_activate_def lunge_loop.simps fifo_loop.simps
      lunge_create_effects_def lunge_table_def process_result_def)




subsection \<open>Termination on acyclic follow-up graphs\<close>





subsection \<open>The loop of the basic attack always stops\<close>






section \<open>Properties of the activation pass\<close>

subsection \<open>The pass computes \<open>after_pass\<close> on every entity\<close>

lemma after_pass_idem:
  "after_pass mad pp now (after_pass mad pp now cs) = after_pass mad pp now cs"
  by (cases "c_position cs") (auto simp add: after_pass_def)

lemma after_pass_position [simp]:
  "c_position (after_pass mad pp now cs) = c_position cs"
  by (cases "c_position cs") (auto simp add: after_pass_def)

lemma after_pass_is_player [simp]:
  "c_is_player (after_pass mad pp now cs) = c_is_player cs"
  by (cases "c_position cs") (auto simp add: after_pass_def)

lemma tracked_same: "c_tracked cs = v \<Longrightarrow> cs\<lparr>c_tracked := v\<rparr> = cs"
  by (cases cs) simp

lemma is_active_same: "c_is_active cs = v \<Longrightarrow> cs\<lparr>c_is_active := v\<rparr> = cs"
  by (cases cs) simp

lemma world_store_same: "w\<lparr>store := store w\<rparr> = w"
  by simp

lemma activate_unpositioned_step:
  assumes "store w e = Some cs" and "c_position cs = None"
  shows "activate_unpositioned e w =
           (Inr (), w\<lparr>store := (store w)(e \<mapsto> after_pass mad pp now cs)\<rparr>)"
proof (cases "c_is_active cs")
  case None
  then show ?thesis
    using assms
    by (simp add: activate_unpositioned_def add_component_def has_component_def
        update_components_def after_pass_def)
next
  case (Some u)
  then have "after_pass mad pp now cs = cs"
    using assms by (simp add: after_pass_def)
  moreover have "(store w)(e \<mapsto> cs) = store w"
    using assms(1) by (rule map_upd_triv)
  ultimately show ?thesis
    using assms Some
    by (simp add: activate_unpositioned_def has_component_def)
qed

lemma activate_positioned_step:
  assumes "store w e = Some cs" and "c_position cs = Some pos"
  shows "activate_positioned mad (Some pp) e pos w =
           (Inr (), w\<lparr>store := (store w)(e \<mapsto> after_pass mad pp (time w) cs)\<rparr>)"
proof -
  have triv: "(store w)(e \<mapsto> cs) = store w"
    using assms(1) by (rule map_upd_triv)
  show ?thesis
  proof (cases "in_reach mad pp pos")
    case True
    show ?thesis
    proof (cases "c_is_active cs")
      case None
      show ?thesis
      proof (cases "c_tracked cs")
        case tn: None
        show ?thesis
          using assms True None tn
          by (cases cs)
            (simp del: max_less_iff_conj add: in_reach_def [symmetric] activate_positioned_def Let_def add_component_def
              has_component_def update_components_def after_pass_def)
      next
        case (Some tr)
        then show ?thesis
          using assms True None
          by (simp del: max_less_iff_conj add: in_reach_def [symmetric] activate_positioned_def Let_def add_component_def
              has_component_def update_components_def after_pass_def get_entitys_component_def)
      qed
    next
      case (Some u)
      then have "after_pass mad pp (time w) cs = cs"
        using assms True by (simp add: after_pass_def)
      then show ?thesis
        using assms True Some triv
        by (simp del: max_less_iff_conj add: in_reach_def [symmetric] activate_positioned_def Let_def has_component_def)
    qed
  next
    case False
    show ?thesis
    proof (cases "c_is_active cs")
      case None
      then have "after_pass mad pp (time w) cs = cs"
        using assms False by (simp add: after_pass_def)
      then show ?thesis
        using assms False None triv
        by (simp del: max_less_iff_conj add: in_reach_def [symmetric] activate_positioned_def Let_def has_component_def)
    next
      case (Some u)
      then show ?thesis
        using assms False
        by (simp del: max_less_iff_conj add: in_reach_def [symmetric] activate_positioned_def Let_def has_component_def
            remove_component_def update_components_def after_pass_def)
    qed
  qed
qed


lemma pass_over_step:
  assumes "store w e = Some cs" and "g (g cs) = g cs"
  shows "pass_over g rest (w\<lparr>store := (store w)(e \<mapsto> g cs)\<rparr>) = pass_over g (e # rest) w"
  using assms by (cases w) (auto simp add: pass_over_def fun_eq_iff)

lemma process_unpositioned_result:
  assumes "\<forall>e\<in>set es. \<exists>cs. store w e = Some cs \<and> c_position cs = None"
  shows "process_unpositioned es w = (Inr (), pass_over (after_pass mad pp now) es w)"
  using assms
proof (induction es arbitrary: w)
  case Nil
  show ?case by (simp add: pass_over_def)
next
  case (Cons e rest)
  then obtain cs where cs: "store w e = Some cs" "c_position cs = None" by auto
  define w1 where "w1 = w\<lparr>store := (store w)(e \<mapsto> after_pass mad pp now cs)\<rparr>"
  have step: "activate_unpositioned e w = (Inr (), w1)"
    using activate_unpositioned_step [OF cs] by (simp add: w1_def)
  have pre: "\<forall>e'\<in>set rest. \<exists>cs'. store w1 e' = Some cs' \<and> c_position cs' = None"
    using Cons.prems cs by (auto simp add: w1_def)
  have "process_unpositioned (e # rest) w = process_unpositioned rest w1"
    using step by simp
  also have "\<dots> = (Inr (), pass_over (after_pass mad pp now) rest w1)"
    using Cons.IH [OF pre] .
  also have "pass_over (after_pass mad pp now) rest w1 =
             pass_over (after_pass mad pp now) (e # rest) w"
    unfolding w1_def
    by (rule pass_over_step [where g = "after_pass mad pp now", OF cs(1) after_pass_idem])
  finally show ?case .
qed

lemma process_positioned_result:
  assumes "\<forall>(e, pos)\<in>set qs. \<exists>cs. store w e = Some cs \<and> c_position cs = Some pos"
  shows "process_positioned mad (Some pp) qs w =
           (Inr (), pass_over (after_pass mad pp (time w)) (map fst qs) w)"
  using assms
proof (induction qs arbitrary: w)
  case Nil
  show ?case by (simp add: pass_over_def)
next
  case (Cons q rest)
  obtain e pos where q: "q = (e, pos)" by (cases q)
  then obtain cs where cs: "store w e = Some cs" "c_position cs = Some pos"
    using Cons.prems by auto
  define w1 where "w1 = w\<lparr>store := (store w)(e \<mapsto> after_pass mad pp (time w) cs)\<rparr>"
  have t: "time w1 = time w" by (simp add: w1_def)
  have step: "activate_positioned mad (Some pp) e pos w = (Inr (), w1)"
    using activate_positioned_step [OF cs] by (simp add: w1_def)
  have pre: "\<forall>(e', pos')\<in>set rest. \<exists>cs'. store w1 e' = Some cs' \<and> c_position cs' = Some pos'"
  proof (intro ballI, clarify)
    fix e' pos'
    assume "(e', pos') \<in> set rest"
    then obtain cs' where "store w e' = Some cs'" "c_position cs' = Some pos'"
      using Cons.prems by fastforce
    then show "\<exists>cs'. store w1 e' = Some cs' \<and> c_position cs' = Some pos'"
      using cs by (cases "e' = e") (auto simp add: w1_def)
  qed
  have "process_positioned mad (Some pp) (q # rest) w = process_positioned mad (Some pp) rest w1"
    using step q by simp
  also have "\<dots> = (Inr (), pass_over (after_pass mad pp (time w)) (map fst rest) w1)"
    using Cons.IH [OF pre] t by simp
  also have "pass_over (after_pass mad pp (time w)) (map fst rest) w1 =
             pass_over (after_pass mad pp (time w)) (map fst (q # rest)) w"
    unfolding w1_def
    using pass_over_step [where g = "after_pass mad pp (time w)", OF cs(1) after_pass_idem] q
    by simp
  finally show ?case .
qed


lemma get_components_pass_over:
  assumes "\<And>cs. sel (g cs) = sel cs"
  shows "get_components (pass_over g es w) sel = get_components w sel"
proof -
  have "(\<lambda>e. case store (pass_over g es w) e of
               None \<Rightarrow> None
             | Some cs \<Rightarrow> (case sel cs of None \<Rightarrow> None | Some c \<Rightarrow> Some (e, c))) =
        (\<lambda>e. case store w e of
               None \<Rightarrow> None
             | Some cs \<Rightarrow> (case sel cs of None \<Rightarrow> None | Some c \<Rightarrow> Some (e, c)))"
    using assms by (auto simp add: fun_eq_iff pass_over_def split: option.splits)
  moreover have "ids (pass_over g es w) = ids w"
    by (simp add: pass_over_def)
  ultimately show ?thesis
    by (simp add: get_components_def)
qed

lemma set_map_filter_eq:
  "set (List.map_filter f xs) = {y. \<exists>x\<in>set xs. f x = Some y}"
  by (induction xs) (auto split: option.splits)

lemma in_get_components:
  "(e, c) \<in> set (get_components w sel) \<longleftrightarrow>
     e \<in> set (ids w) \<and> (\<exists>cs. store w e = Some cs \<and> sel cs = Some c)"
  by (auto simp add: get_components_def set_map_filter_eq split: option.splits)

lemma in_query_not_position:
  "e \<in> set (query_not_position w) \<longleftrightarrow>
     e \<in> set (ids w) \<and> (\<exists>cs. store w e = Some cs \<and> c_position cs = None)"
  by (auto simp add: query_not_position_def split: option.splits)

lemma process_activations_result:
  assumes player: "get_player w = Some p"
    and pcs: "store w p = Some pcs"
    and ppos: "c_position pcs = Some pp"
  shows "process_activations mad w =
           (Inr (), pass_over (after_pass mad pp (time w)) (ids w) w)"
proof -
  define g where "g = after_pass mad pp (time w)"
  define w1 where "w1 = pass_over g (query_not_position w) w"
  have g_pos: "\<And>cs. c_position (g cs) = c_position cs"
    and g_player: "\<And>cs. c_is_player (g cs) = c_is_player cs"
    by (simp_all add: g_def)
  have loop1: "process_unpositioned (query_not_position w) w = (Inr (), w1)"
    unfolding w1_def g_def
    by (rule process_unpositioned_result) (simp add: in_query_not_position)
  have player1: "get_player w1 = Some p"
    using player get_components_pass_over [of c_is_player g, OF g_player]
    by (simp add: get_player_def w1_def)
  have q1: "query_position w1 = query_position w"
    using get_components_pass_over [of c_position g, OF g_pos]
    by (simp add: query_position_def w1_def)
  have t1: "time w1 = time w" by (simp add: w1_def pass_over_def)
  have "p \<notin> set (query_not_position w)"
    using pcs ppos by (simp add: in_query_not_position)
  then have p1: "store w1 p = Some pcs"
    using pcs by (simp add: w1_def pass_over_def)
  have look: "get_entitys_component w1 p Position c_position = (Inr (Some pp), w1)"
    using p1 ppos by (simp add: get_entitys_component_def has_component_def)
  have pre2: "\<forall>(e, pos)\<in>set (query_position w1).
                \<exists>cs. store w1 e = Some cs \<and> c_position cs = Some pos"
    by (auto simp add: query_position_def in_get_components)
  have loop2: "process_positioned mad (Some pp) (query_position w1) w1 =
                 (Inr (), pass_over g (map fst (query_position w)) w1)"
    using process_positioned_result [OF pre2, of mad pp] t1 q1 by (simp add: g_def)
  have "pass_over g (map fst (query_position w)) w1 = pass_over g (ids w) w"
  proof -
    have "(\<lambda>e. if e \<in> set (map fst (query_position w))
               then map_option g (store w1 e) else store w1 e) =
          (\<lambda>e. if e \<in> set (ids w) then map_option g (store w e) else store w e)"
    proof (rule ext)
      fix e
      show "(if e \<in> set (map fst (query_position w))
               then map_option g (store w1 e) else store w1 e) =
            (if e \<in> set (ids w) then map_option g (store w e) else store w e)"
      proof (cases "e \<in> set (ids w)")
        case False
        then show ?thesis
          by (auto simp add: query_position_def in_get_components in_query_not_position
              w1_def pass_over_def)
      next
        case True
        show ?thesis
        proof (cases "store w e")
          case None
          then show ?thesis
            using True
            by (auto simp add: query_position_def in_get_components in_query_not_position
                w1_def pass_over_def)
        next
          case (Some cs)
          show ?thesis
          proof (cases "c_position cs")
            case None
            then have "e \<in> set (query_not_position w)"
              and "e \<notin> set (map fst (query_position w))"
              using True Some
              by (auto simp add: query_position_def in_get_components in_query_not_position)
            then show ?thesis
              using True by (simp add: w1_def pass_over_def)
          next
            case (Some pos)
            then have "(e, pos) \<in> set (query_position w)"
              using True \<open>store w e = Some cs\<close>
              by (simp add: query_position_def in_get_components)
            then have "e \<in> set (map fst (query_position w))"
              by force
            moreover have "e \<notin> set (query_not_position w)"
              using Some \<open>store w e = Some cs\<close> by (simp add: in_query_not_position)
            ultimately have "e \<notin> set (query_not_position w)"
              and "e \<in> set (map fst (query_position w))"
              by simp_all
            then show ?thesis
              using True by (simp add: w1_def pass_over_def)
          qed
        qed
      qed
    qed
    then have "pass_over g (map fst (query_position w)) w1 =
                 w1\<lparr>store := (\<lambda>e. if e \<in> set (ids w) then map_option g (store w e)
                                    else store w e)\<rparr>"
      by (simp only: pass_over_def)
    also have "\<dots> = pass_over g (ids w) w"
      by (simp add: pass_over_def w1_def)
    finally show ?thesis .
  qed
  then show ?thesis
    using loop1 player1 look loop2
    by (simp add: process_activations_def g_def)
qed

subsection \<open>The pass on the example\<close>

lemma flag_absent: "(flag \<noteq> Some ()) = (flag = None)"
  by (cases flag) auto

lemma example_pass:
  "process_activations 4 example_world =
     (Inr (), pass_over (after_pass 4 \<lparr>pos_x = 0, pos_y = 0, coordinates = [(0, 0)]\<rparr> 5)
                [1, 2, 3, 4, 5] example_world)"
  using process_activations_result [where pcs = player_components, OF example_player,
      of "\<lparr>pos_x = 0, pos_y = 0, coordinates = [(0, 0)]\<rparr>" 4]
  by (simp add: example_defs)

subsection \<open>Which entities are active after the pass\<close>

text \<open>
  C3, as stated: an entity with a position is active after the pass when its Chebyshev
  distance to the player is within the activation radius. With the radius 4, the crab is
  at a distance of exactly 4 from the player, which is not outside the radius, and it
  was active: the pass clears its flag.
\<close>

theorem activation_boundary_counterexample:
  "get_player example_world = Some 1 \<and>
   Option.bind (store example_world 1) c_position =
     Some \<lparr>pos_x = 0, pos_y = 0, coordinates = [(0, 0)]\<rparr> \<and>
   Option.bind (store example_world 5) c_position =
     Some \<lparr>pos_x = 4, pos_y = 0, coordinates = [(4, 0)]\<rparr> \<and>
   max \<bar>0 - 4\<bar> \<bar>0 - 0\<bar> \<le> (4 :: int) \<and>
   fst (process_activations 4 example_world) = Inr () \<and>
   map_option c_is_active (store (snd (process_activations 4 example_world)) 5) = Some None"
proof -
  have "process_activations 4 example_world =
          (Inr (), pass_over (after_pass 4 \<lparr>pos_x = 0, pos_y = 0, coordinates = [(0, 0)]\<rparr>
                     (time example_world)) (ids example_world) example_world)"
    by (rule process_activations_result [where pcs = player_components, OF example_player])
      (simp_all add: example_defs)
  then show ?thesis
    by (simp add: example_player)
      (simp add: example_defs pass_over_def after_pass_def in_reach_def)
qed

text \<open>
  C3, amended. With a player that has a position, the pass completes, and for every
  entity of the world: its position is left as it was; without a position it has the
  flag; with a position it has the flag if and only if the Chebyshev distance to the
  player is strictly less than \<^verbatim>\<open>MAX_ACTIVATION_DISTANCE\<close>, and the flag is cleared at that
  distance and beyond.
\<close>

theorem activation_pass_flags:
  assumes "get_player w = Some p" and "store w p = Some pcs" and "c_position pcs = Some pp"
    and "e \<in> set (ids w)" and "store w e = Some cs"
  shows "fst (process_activations mad w) = Inr () \<and>
         (\<exists>cs'. store (snd (process_activations mad w)) e = Some cs' \<and>
            c_position cs' = c_position cs \<and>
            (c_is_active cs' \<noteq> None \<longleftrightarrow>
               (case c_position cs of
                  None \<Rightarrow> True
                | Some pos \<Rightarrow> max \<bar>pos_x pp - pos_x pos\<bar> \<bar>pos_y pp - pos_y pos\<bar> < mad)))"
  using assms(4,5)
  by (simp add: process_activations_result [OF assms(1,2,3)] pass_over_def)
    (simp add: after_pass_def in_reach_def split: option.splits)

theorem activation_pass_flags_witness:
  "fst (process_activations 4 example_world) = Inr () \<and>
   map_option c_is_active (store (snd (process_activations 4 example_world)) 3) = Some (Some ()) \<and>
   map_option c_is_active (store (snd (process_activations 4 example_world)) 4) = Some None"
proof -
  have pl: "store example_world 1 = Some player_components"
    "c_position player_components = Some \<lparr>pos_x = 0, pos_y = 0, coordinates = [(0, 0)]\<rparr>"
    by (simp_all add: example_defs)
  have god: "3 \<in> set (ids example_world)" "store example_world 3 = Some god_components"
    "c_position god_components = None"
    by (simp_all add: example_defs)
  have bat: "4 \<in> set (ids example_world)" "store example_world 4 = Some bat_components"
    "c_position bat_components = Some \<lparr>pos_x = 9, pos_y = 9, coordinates = [(9, 9)]\<rparr>"
    by (simp_all add: example_defs)
  from activation_pass_flags [OF example_player pl god(1,2), of 4]
       activation_pass_flags [OF example_player pl bat(1,2), of 4]
  show ?thesis
    by (auto simp add: god(3) bat(3) flag_absent)
qed

subsection \<open>Tracked time\<close>

lemma rat_tracked_at_player: "get_player (rat_tracked_at t) = Some 1"
  by (simp add: get_player_def get_components_def rat_tracked_at_def example_defs)





text \<open>
  C5, as stated: no operation but a rebuild of the queue decreases the tracked time. The
  rat was not active, its tracked time was 40 and the global time is 5: the pass
  re-activates it and sets its tracked time to 6. And ending a turn adds the time cost
  whatever its sign: with the cost -3 the tracked time of the player goes from 0 to -3.
\<close>

theorem time_spent_decreases_counterexample:
  "Option.bind (store example_world 2) c_tracked = Some \<lparr>time_spent = 40\<rparr> \<and>
   Option.bind (store (snd (process_activations 4 example_world)) 2) c_tracked =
     Some \<lparr>time_spent = 6\<rparr> \<and>
   Option.bind (store example_world 1) c_tracked = Some \<lparr>time_spent = 0\<rparr> \<and>
   Option.bind (store (snd (process_end_turn example_world 1 (- 3))) 1) c_tracked =
     Some \<lparr>time_spent = - 3\<rparr>"
  by (simp add: example_pass)
    (simp add: process_end_turn_def spend_time_def spend_time_body_def store_simps
      example_defs pass_over_def after_pass_def in_reach_def)

lemma spend_time_result:
  assumes "store w e = Some cs" and "c_tracked cs = Some tr"
  shows "spend_time w e spent =
           (Inr (), w\<lparr>store := (store w)(e \<mapsto>
              cs\<lparr>c_tracked := Some (tr\<lparr>time_spent := time_spent tr + spent\<rparr>)\<rparr>)\<rparr>)"
  using assms by (simp add: spend_time_def spend_time_body_def store_simps)

text \<open>
  C5, amended. For a tracked entity: ending a turn adds the time cost, so the tracked time
  does not decrease exactly when the cost is not negative. The activation pass leaves the
  tracked time as it was unless it re-activates the entity (an entity of the world that
  was not active and has a position that passes the distance test), and then the tracked
  time is the global time plus one: the pass decreases the tracked time exactly when it
  re-activates an entity whose tracked time was ahead of the global time plus one.
\<close>

theorem time_spent_monotone:
  assumes "store w e = Some cs" and "c_tracked cs = Some tr"
  shows "(\<exists>tr'. Option.bind (store (snd (process_end_turn w e spent)) e) c_tracked = Some tr' \<and>
               time_spent tr' = time_spent tr + spent \<and>
               (time_spent tr \<le> time_spent tr' \<longleftrightarrow> 0 \<le> spent)) \<and>
         (get_player w = Some p \<and> store w p = Some pcs \<and> c_position pcs = Some pp \<longrightarrow>
            (\<exists>tr'. Option.bind (store (snd (process_activations mad w)) e) c_tracked = Some tr' \<and>
               time_spent tr' =
                 (if e \<in> set (ids w) \<and> c_is_active cs = None \<and>
                     (case c_position cs of
                        None \<Rightarrow> False
                      | Some pos \<Rightarrow> max \<bar>pos_x pp - pos_x pos\<bar> \<bar>pos_y pp - pos_y pos\<bar> < mad)
                  then time w + 1 else time_spent tr) \<and>
               (time_spent tr' < time_spent tr \<longleftrightarrow>
                  e \<in> set (ids w) \<and> c_is_active cs = None \<and>
                  (case c_position cs of
                     None \<Rightarrow> False
                   | Some pos \<Rightarrow> max \<bar>pos_x pp - pos_x pos\<bar> \<bar>pos_y pp - pos_y pos\<bar> < mad) \<and>
                  time w + 1 < time_spent tr)))"
proof (intro conjI impI)
  show "\<exists>tr'. Option.bind (store (snd (process_end_turn w e spent)) e) c_tracked = Some tr' \<and>
               time_spent tr' = time_spent tr + spent \<and>
               (time_spent tr \<le> time_spent tr' \<longleftrightarrow> 0 \<le> spent)"
    by (simp add: process_end_turn_def spend_time_result [OF assms])
next
  assume h: "get_player w = Some p \<and> store w p = Some pcs \<and> c_position pcs = Some pp"
  then have r: "process_activations mad w =
                  (Inr (), pass_over (after_pass mad pp (time w)) (ids w) w)"
    using process_activations_result by blast
  show "\<exists>tr'. Option.bind (store (snd (process_activations mad w)) e) c_tracked = Some tr' \<and>
               time_spent tr' =
                 (if e \<in> set (ids w) \<and> c_is_active cs = None \<and>
                     (case c_position cs of
                        None \<Rightarrow> False
                      | Some pos \<Rightarrow> max \<bar>pos_x pp - pos_x pos\<bar> \<bar>pos_y pp - pos_y pos\<bar> < mad)
                  then time w + 1 else time_spent tr) \<and>
               (time_spent tr' < time_spent tr \<longleftrightarrow>
                  e \<in> set (ids w) \<and> c_is_active cs = None \<and>
                  (case c_position cs of
                     None \<Rightarrow> False
                   | Some pos \<Rightarrow> max \<bar>pos_x pp - pos_x pos\<bar> \<bar>pos_y pp - pos_y pos\<bar> < mad) \<and>
                  time w + 1 < time_spent tr)"
    using assms
    by (cases "c_position cs"; cases "c_is_active cs")
      (auto simp add: r pass_over_def after_pass_def in_reach_def)
qed

theorem time_spent_monotone_witness:
  "Option.bind (store (rat_tracked_at 3) 2) c_tracked = Some \<lparr>time_spent = 3\<rparr> \<and>
   Option.bind (store (snd (process_end_turn (rat_tracked_at 3) 2 10)) 2) c_tracked =
     Some \<lparr>time_spent = 13\<rparr> \<and>
   Option.bind (store (snd (process_activations 4 (rat_tracked_at 3))) 2) c_tracked =
     Some \<lparr>time_spent = 6\<rparr>"
proof -
  have pl: "store (rat_tracked_at 3) 1 = Some player_components"
    "c_position player_components = Some \<lparr>pos_x = 0, pos_y = 0, coordinates = [(0, 0)]\<rparr>"
    by (simp_all add: rat_tracked_at_def example_defs)
  have rat: "store (rat_tracked_at 3) 2 = Some (rat_components\<lparr>c_tracked := Some \<lparr>time_spent = 3\<rparr>\<rparr>)"
    "c_tracked (rat_components\<lparr>c_tracked := Some \<lparr>time_spent = 3\<rparr>\<rparr>) = Some \<lparr>time_spent = 3\<rparr>"
    by (simp_all add: rat_tracked_at_def example_defs)
  have more: "2 \<in> set (ids (rat_tracked_at 3))"
    "c_is_active (rat_components\<lparr>c_tracked := Some \<lparr>time_spent = 3\<rparr>\<rparr>) = None"
    "c_position (rat_components\<lparr>c_tracked := Some \<lparr>time_spent = 3\<rparr>\<rparr>) =
       Some \<lparr>pos_x = 1, pos_y = 0, coordinates = [(1, 0)]\<rparr>"
    "time (rat_tracked_at 3) = 5"
    by (simp_all add: rat_tracked_at_def example_defs)
  from time_spent_monotone [OF rat, of 10 1 player_components
      "\<lparr>pos_x = 0, pos_y = 0, coordinates = [(0, 0)]\<rparr>" 4]
  obtain tr1 tr2 where
    a: "Option.bind (store (snd (process_end_turn (rat_tracked_at 3) 2 10)) 2) c_tracked = Some tr1"
       "time_spent tr1 = 3 + 10"
    and b: "Option.bind (store (snd (process_activations 4 (rat_tracked_at 3))) 2) c_tracked = Some tr2"
       "time_spent tr2 = 5 + 1"
    using rat_tracked_at_player pl more by auto
  have "tr1 = \<lparr>time_spent = 13\<rparr>" using a(2) by (cases tr1) simp
  moreover have "tr2 = \<lparr>time_spent = 6\<rparr>" using b(2) by (cases tr2) simp
  ultimately show ?thesis using a(1) b(1) rat by simp
qed

section \<open>Properties of the field of view\<close>

subsection \<open>Writing cells of the transparency layer\<close>

lemma np_index_bound: "np_index n i = Inr k \<Longrightarrow> k < n"
  by (auto simp add: np_index_def Let_def split: if_splits)

lemma np_set_get_same:
  assumes "np_set m c v = Inr m'"
  shows "np_get m' c = Inr v"
proof -
  obtain i where i: "np_index (length m) (fst c) = Inr i"
    using assms by (auto simp add: np_set_def split: sum.splits)
  obtain j where j: "np_index (length (m ! i)) (snd c) = Inr j"
    using assms i by (auto simp add: np_set_def split: sum.splits)
  have m': "m' = m[i := (m ! i)[j := v]]"
    using assms i j by (simp add: np_set_def)
  have il: "i < length m" and jl: "j < length (m ! i)"
    using i j by (auto dest: np_index_bound)
  show ?thesis
    using i j il jl by (simp add: np_get_def m')
qed

lemma np_set_keeps_False:
  assumes "np_set m c False = Inr m'" and "np_get m c' = Inr False"
  shows "np_get m' c' = Inr False"
proof -
  obtain i where i: "np_index (length m) (fst c) = Inr i"
    using assms(1) by (auto simp add: np_set_def split: sum.splits)
  obtain j where j: "np_index (length (m ! i)) (snd c) = Inr j"
    using assms(1) i by (auto simp add: np_set_def split: sum.splits)
  have m': "m' = m[i := (m ! i)[j := False]]"
    using assms(1) i j by (simp add: np_set_def)
  obtain i' where i': "np_index (length m) (fst c') = Inr i'"
    using assms(2) by (auto simp add: np_get_def split: sum.splits)
  obtain j' where j': "np_index (length (m ! i')) (snd c') = Inr j'"
    using assms(2) i' by (auto simp add: np_get_def split: sum.splits)
  have v: "m ! i' ! j' = False"
    using assms(2) i' j' by (simp add: np_get_def)
  have il: "i < length m" "i' < length m" "j' < length (m ! i')"
    using i i' j' by (auto dest: np_index_bound)
  show ?thesis
  proof (cases "i' = i")
    case True
    then show ?thesis
      using i' j' il v by (cases "j' = j") (simp_all add: np_get_def m')
  next
    case False
    then show ?thesis
      using i' j' il v by (simp add: np_get_def m')
  qed
qed

lemma set_blocking_keeps_False:
  "set_blocking cs m = Inr m' \<Longrightarrow> np_get m c' = Inr False \<Longrightarrow> np_get m' c' = Inr False"
proof (induction cs arbitrary: m)
  case Nil
  then show ?case by simp
next
  case (Cons c rest)
  then obtain m1 where m1: "np_set m c False = Inr m1" "set_blocking rest m1 = Inr m'"
    by (auto split: sum.splits)
  from Cons.IH [OF m1(2) np_set_keeps_False [OF m1(1) Cons.prems(2)]] show ?case .
qed

lemma set_blocking_blocks:
  "set_blocking cs m = Inr m' \<Longrightarrow> c \<in> set cs \<Longrightarrow> np_get m' c = Inr False"
proof (induction cs arbitrary: m)
  case Nil
  then show ?case by simp
next
  case (Cons c0 rest)
  then obtain m1 where m1: "np_set m c0 False = Inr m1" "set_blocking rest m1 = Inr m'"
    by (auto split: sum.splits)
  show ?case
  proof (cases "c = c0")
    case True
    from set_blocking_keeps_False [OF m1(2) np_set_get_same [OF m1(1)]] True
    show ?thesis by simp
  next
    case False
    then have "c \<in> set rest" using Cons.prems(2) by simp
    from Cons.IH [OF m1(2) this] show ?thesis .
  qed
qed

lemma block_sight_for_Cons:
  "block_sight_for entity height ((other_entity, other_pos, other_height) # rest) m =
     (if entity = other_entity \<or> height > other_height
      then block_sight_for entity height rest m
      else case set_blocking (coordinates other_pos) m of
             Inl err \<Rightarrow> Inl err
           | Inr m1 \<Rightarrow> block_sight_for entity height rest m1)"
  by simp

lemma block_sight_for_keeps_False:
  "block_sight_for entity height others m = Inr m' \<Longrightarrow> np_get m c' = Inr False \<Longrightarrow>
   np_get m' c' = Inr False"
proof (induction others arbitrary: m)
  case Nil
  then show ?case by simp
next
  case (Cons first rest)
  obtain other_entity other_pos other_height where
    first: "first = (other_entity, other_pos, other_height)"
    by (cases first)
  show ?case
  proof (cases "entity = other_entity \<or> height > other_height")
    case True
    then have "block_sight_for entity height rest m = Inr m'"
      using Cons.prems(1) unfolding first block_sight_for_Cons by simp
    from Cons.IH [OF this Cons.prems(2)] show ?thesis .
  next
    case False
    then obtain m1 where m1: "set_blocking (coordinates other_pos) m = Inr m1"
      "block_sight_for entity height rest m1 = Inr m'"
      using Cons.prems(1) unfolding first block_sight_for_Cons
      by (auto split: sum.splits)
    from Cons.IH [OF m1(2) set_blocking_keeps_False [OF m1(1) Cons.prems(2)]]
    show ?thesis .
  qed
qed

lemma block_sight_for_blocks:
  "block_sight_for entity height others m = Inr m' \<Longrightarrow>
   (other, pos, other_height) \<in> set others \<Longrightarrow> other \<noteq> entity \<Longrightarrow>
   height \<le> other_height \<Longrightarrow> c \<in> set (coordinates pos) \<Longrightarrow> np_get m' c = Inr False"
proof (induction others arbitrary: m)
  case Nil
  then show ?case by simp
next
  case (Cons first rest)
  obtain other_entity other_pos other_height' where
    first: "first = (other_entity, other_pos, other_height')"
    by (cases first)
  show ?case
  proof (cases "entity = other_entity \<or> height > other_height'")
    case True
    then have r: "block_sight_for entity height rest m = Inr m'"
      using Cons.prems(1) unfolding first block_sight_for_Cons by simp
    have "(other, pos, other_height) \<in> set rest"
      using True Cons.prems(2,3,4) first by auto
    from Cons.IH [OF r this Cons.prems(3,4,5)] show ?thesis .
  next
    case False
    then obtain m1 where m1: "set_blocking (coordinates other_pos) m = Inr m1"
      "block_sight_for entity height rest m1 = Inr m'"
      using Cons.prems(1) unfolding first block_sight_for_Cons
      by (auto split: sum.splits)
    show ?thesis
    proof (cases "(other, pos, other_height) = first")
      case True
      then have "np_get m1 c = Inr False"
        using set_blocking_blocks [OF m1(1)] Cons.prems(5) first by simp
      from block_sight_for_keeps_False [OF m1(2) this] show ?thesis .
    next
      case False
      then have "(other, pos, other_height) \<in> set rest"
        using Cons.prems(2) by auto
      from Cons.IH [OF m1(2) this Cons.prems(3,4,5)] show ?thesis .
    qed
  qed
qed

lemma block_sight_for_skips:
  "height > other_height \<Longrightarrow>
   block_sight_for entity height (before @ (other, pos, other_height) # after) m =
   block_sight_for entity height (before @ after) m"
proof (induction before arbitrary: m)
  case Nil
  then show ?case by simp
next
  case (Cons first rest)
  obtain other_entity other_pos other_height' where
    first: "first = (other_entity, other_pos, other_height')"
    by (cases first)
  show ?case
    by (simp only: first append_Cons block_sight_for_Cons Cons.IH [OF Cons.prems])
qed


lemma np_set_returns:
  assumes "in_map m c"
  shows "\<exists>m'. np_set m c v = Inr m'"
  using assms by (auto simp add: in_map_def np_get_def np_set_def split: sum.splits)

lemma np_set_in_map:
  assumes "np_set m c v = Inr m'"
  shows "in_map m' c' = in_map m c'"
proof -
  obtain i where i: "np_index (length m) (fst c) = Inr i"
    using assms by (auto simp add: np_set_def split: sum.splits)
  obtain j where j: "np_index (length (m ! i)) (snd c) = Inr j"
    using assms i by (auto simp add: np_set_def split: sum.splits)
  have m': "m' = m[i := (m ! i)[j := v]]"
    using assms i j by (simp add: np_set_def)
  have len: "length m' = length m" by (simp add: m')
  have row: "length (m' ! k) = length (m ! k)" if "k < length m" for k
    using that by (cases "k = i") (simp_all add: m')
  show ?thesis
  proof (cases "np_index (length m) (fst c')")
    case (Inl err)
    then show ?thesis by (simp add: in_map_def np_get_def len)
  next
    case (Inr k)
    then have "k < length m" by (rule np_index_bound)
    then show ?thesis
      using Inr row [of k] by (simp add: in_map_def np_get_def len split: sum.splits)
  qed
qed

lemma set_blocking_returns:
  "list_all (in_map m) cs \<Longrightarrow>
   \<exists>m'. set_blocking cs m = Inr m' \<and> in_map m' = in_map m"
proof (induction cs arbitrary: m)
  case Nil
  then show ?case by simp
next
  case (Cons c rest)
  then obtain m1 where m1: "np_set m c False = Inr m1"
    using np_set_returns [of m c False] by auto
  have same: "in_map m1 = in_map m"
    using np_set_in_map [OF m1] by (simp add: fun_eq_iff)
  then have "list_all (in_map m1) rest"
    using Cons.prems by simp
  from Cons.IH [OF this] obtain m' where
    "set_blocking rest m1 = Inr m'" "in_map m' = in_map m1"
    by blast
  then show ?case using m1 same by simp
qed

lemma block_sight_for_returns:
  "list_all (\<lambda>other. list_all (in_map m) (coordinates (fst (snd other)))) others \<Longrightarrow>
   \<exists>m'. block_sight_for entity height others m = Inr m' \<and> in_map m' = in_map m"
proof (induction others arbitrary: m)
  case Nil
  then show ?case by simp
next
  case (Cons first rest)
  obtain other_entity other_pos other_height where
    first: "first = (other_entity, other_pos, other_height)"
    by (cases first)
  have rest: "list_all (\<lambda>other. list_all (in_map m) (coordinates (fst (snd other)))) rest"
    and here: "list_all (in_map m) (coordinates other_pos)"
    using Cons.prems first by simp_all
  show ?case
  proof (cases "entity = other_entity \<or> height > other_height")
    case True
    then show ?thesis
      using Cons.IH [OF rest] unfolding first block_sight_for_Cons by simp
  next
    case False
    obtain m1 where m1: "set_blocking (coordinates other_pos) m = Inr m1"
      "in_map m1 = in_map m"
      using set_blocking_returns [OF here] by blast
    have "list_all (\<lambda>other. list_all (in_map m1) (coordinates (fst (snd other)))) rest"
      using rest m1(2) by simp
    from Cons.IH [OF this] obtain m' where
      "block_sight_for entity height rest m1 = Inr m'" "in_map m' = in_map m1"
      by blast
    then show ?thesis
      using False m1 unfolding first block_sight_for_Cons by simp
  qed
qed

subsection \<open>Who blocks whose sight\<close>

text \<open>
  C2, as stated: of two entities at the same distance, the taller one does not block the
  viewer's sight and the shorter one does. For the viewer of height 2, the tile of the
  entity of height 3 is made opaque and the tile of the entity of height 1 stays
  transparent.
\<close>

theorem taller_blocks_counterexample:
  "snd (snd short_blocker) < snd (snd tall_blocker) \<and>
   block_sight_for 1 2 [tall_blocker, short_blocker] open_map =
     Inr [[True, True, True], [False, True, True], [True, True, True]] \<and>
   np_get [[True, True, True], [False, True, True], [True, True, True]] (1, 0) = Inr False \<and>
   np_get [[True, True, True], [False, True, True], [True, True, True]] (0, 1) = Inr True"
  by (simp add: tall_blocker_def short_blocker_def open_map_def np_set_def np_get_def
      np_index_def)

text \<open>
  C2, amended. In the transparency layer built for a viewer, with the coordinates of the
  other entities inside the layer: an entity strictly shorter than the viewer is skipped,
  the layer is the one built without it; an entity as tall as the viewer or taller, and
  not the viewer itself, has every tile it occupies made opaque.
\<close>

theorem sight_blocked_by_height:
  assumes "list_all (\<lambda>other. list_all (in_map m) (coordinates (fst (snd other))))
             (before @ (other, pos, other_height) # after)"
  shows "(height > other_height \<longrightarrow>
            block_sight_for entity height (before @ (other, pos, other_height) # after) m =
            block_sight_for entity height (before @ after) m) \<and>
         (height \<le> other_height \<and> other \<noteq> entity \<longrightarrow>
            (\<exists>m'. block_sight_for entity height (before @ (other, pos, other_height) # after) m =
                    Inr m' \<and>
                  list_all (\<lambda>c. np_get m' c = Inr False) (coordinates pos)))"
proof (intro conjI impI)
  assume "height > other_height"
  then show "block_sight_for entity height (before @ (other, pos, other_height) # after) m =
             block_sight_for entity height (before @ after) m"
    by (rule block_sight_for_skips)
next
  assume h: "height \<le> other_height \<and> other \<noteq> entity"
  obtain m' where
    m': "block_sight_for entity height (before @ (other, pos, other_height) # after) m = Inr m'"
    using block_sight_for_returns [OF assms] by blast
  have "np_get m' c = Inr False" if "c \<in> set (coordinates pos)" for c
    using block_sight_for_blocks [OF m' _ _ _ that, of other other_height] h by simp
  then show "\<exists>m'. block_sight_for entity height (before @ (other, pos, other_height) # after) m =
                    Inr m' \<and>
                  list_all (\<lambda>c. np_get m' c = Inr False) (coordinates pos)"
    using m' by (simp add: list_all_iff)
qed

theorem sight_blocked_by_height_witness:
  "block_sight_for 1 2 [tall_blocker, short_blocker] open_map =
     block_sight_for 1 2 [tall_blocker] open_map \<and>
   (case block_sight_for 1 2 [tall_blocker, short_blocker] open_map of
      Inl err \<Rightarrow> Inl err
    | Inr m' \<Rightarrow> np_get m' (1, 0)) = Inr False"
proof -
  have inside: "list_all (\<lambda>other. list_all (in_map open_map) (coordinates (fst (snd other))))
                  ([] @ (2, \<lparr>pos_x = 1, pos_y = 0, coordinates = [(1, 0)]\<rparr>, 3) # [short_blocker])"
    "list_all (\<lambda>other. list_all (in_map open_map) (coordinates (fst (snd other))))
                  ([tall_blocker] @ (3, \<lparr>pos_x = 0, pos_y = 1, coordinates = [(0, 1)]\<rparr>, 1) # [])"
    by (simp_all add: tall_blocker_def short_blocker_def open_map_def in_map_def np_get_def
        np_index_def)
  from sight_blocked_by_height [OF inside(1), of 2 1] sight_blocked_by_height [OF inside(2), of 2 1]
  show ?thesis
    by (auto simp add: tall_blocker_def short_blocker_def)
qed

end
